theory Spec2Isabelle
  imports Complex_Main "HOL-Library.Product_Lexorder" "HOL-Library.Log_Nat"
begin

section \<open>Array primitives used by the notebook cells\<close>

text \<open>
  The notebooks work on one-dimensional arrays of integer labels.  Three array operations
  occur in the tally cell: comparison of an array with a scalar (\<^verbatim>\<open>y == 1\<close>), the
  elementwise conjunction of two boolean arrays (\<^verbatim>\<open>a & b\<close>) and the sum of a boolean
  array (\<^verbatim>\<open>np.sum\<close>).  Only the conjunction can raise: the array library refuses
  operands whose lengths differ (\<^verbatim>\<open>ValueError\<close>, operands could not be broadcast
  together) unless one of them has length one, which it repeats along the other.  Nothing in
  these cells inspects the values or the length of the arrays beyond that.
\<close>

datatype py_error = ValueError

definition np_eq :: "int list \<Rightarrow> int \<Rightarrow> bool list" where
  "np_eq v c = map (\<lambda>x. x = c) v"

definition np_and :: "bool list \<Rightarrow> bool list \<Rightarrow> py_error + bool list" where
  "np_and a b =
     (if length a = length b then Inr (map (\<lambda>(p, q). p \<and> q) (zip a b))
      else if length a = 1 then Inr (map (\<lambda>q. hd a \<and> q) b)
      else if length b = 1 then Inr (map (\<lambda>p. p \<and> hd b) a)
      else Inl ValueError)"

definition np_sum :: "bool list \<Rightarrow> nat" where
  "np_sum a = length (filter (\<lambda>p. p) a)"

section \<open>The confusion-matrix tally\<close>

text \<open>
  \<^verbatim>\<open>
  tp = np.sum((y == 1) & (predicted == 1))
  fp = np.sum((y == 0) & (predicted == 1))
  tn = np.sum((y == 0) & (predicted == 0))
  fn = np.sum((y == 1) & (predicted == 0))
  \<close>
  The four assignments run in this order, so the first conjunction that raises ends the
  cell.  \<open>tally_cell\<close> is one such line, with the two scalars as parameters; the four
  results are gathered in a record in place of the four notebook variables.
\<close>

record ConfusionCounts =
  tp :: nat
  fp :: nat
  tn :: nat
  fn :: nat

definition tally_cell :: "int list \<Rightarrow> int \<Rightarrow> int list \<Rightarrow> int \<Rightarrow> py_error + nat" where
  "tally_cell y a predicted b =
     (case np_and (np_eq y a) (np_eq predicted b) of
        Inl e \<Rightarrow> Inl e
      | Inr m \<Rightarrow> Inr (np_sum m))"

definition confusion_tally :: "int list \<Rightarrow> int list \<Rightarrow> py_error + ConfusionCounts" where
  "confusion_tally y predicted =
     (case tally_cell y 1 predicted 1 of Inl e \<Rightarrow> Inl e | Inr c_tp \<Rightarrow>
      case tally_cell y 0 predicted 1 of Inl e \<Rightarrow> Inl e | Inr c_fp \<Rightarrow>
      case tally_cell y 0 predicted 0 of Inl e \<Rightarrow> Inl e | Inr c_tn \<Rightarrow>
      case tally_cell y 1 predicted 0 of Inl e \<Rightarrow> Inl e | Inr c_fn \<Rightarrow>
        Inr \<lparr>tp = c_tp, fp = c_fp, tn = c_tn, fn = c_fn\<rparr>)"

section \<open>Floating-point values\<close>

text \<open>
  The counts are \<^verbatim>\<open>np.int64\<close> scalars (results of \<^verbatim>\<open>np.sum\<close>), so every division,
  addition and subtraction in the metric cells has an array-library scalar among its
  operands and is carried out by that library in binary64: a zero denominator does not
  raise, it yields \<^verbatim>\<open>nan\<close> (for \<open>0/0\<close>) or \<^verbatim>\<open>inf\<close> and a warning on the error
  stream, and the cell goes on with that value.

  A float is a finite value or one of the three special values.  A finite value is the
  rational number the float stands for, and every arithmetic operation rounds its exact
  result to the nearest number with a significand of 53 bits, a tie going to the even
  significand (\<open>round64\<close>).  The exponent range is not modelled: counts are below \<open>2^63\<close>,
  so no quotient of the metric cells leaves the range of normal numbers.  Zero has no sign:
  the operands here are never negative.
\<close>

text \<open>\<open>pow2 k\<close> is \<open>2^k\<close> for an integer \<open>k\<close>; \<open>expo x\<close> is the exponent of a positive
  \<open>x\<close>, the integer \<open>e\<close> with \<open>2^e \<le> x < 2^(e+1)\<close>.\<close>

definition pow2 :: "int \<Rightarrow> rat" where
  "pow2 k = (if 0 \<le> k then 2 ^ nat k else 1 / 2 ^ nat (- k))"

definition expo :: "rat \<Rightarrow> int" where
  "expo x = (if 1 \<le> x then bitlen \<lfloor>x\<rfloor> - 1 else - bitlen (\<lceil>1 / x\<rceil> - 1))"

text \<open>Rounding to the nearest integer, a tie to the even one.\<close>

definition rne :: "rat \<Rightarrow> int" where
  "rne m =
     (let f = \<lfloor>m\<rfloor>; d = m - of_int f
      in if d < 1 / 2 then f else if 1 / 2 < d then f + 1 else if even f then f else f + 1)"

definition round64 :: "rat \<Rightarrow> rat" where
  "round64 x =
     (if x = 0 then 0
      else let ulp = pow2 (expo \<bar>x\<bar> - 52) in of_int (rne (x / ulp)) * ulp)"

datatype npfloat = Fin rat | PInf | NInf | NaN

fun true_divide :: "npfloat \<Rightarrow> npfloat \<Rightarrow> npfloat" where
  "true_divide NaN _ = NaN"
| "true_divide _ NaN = NaN"
| "true_divide (Fin a) (Fin b) =
     (if b = 0 then (if a = 0 then NaN else if 0 < a then PInf else NInf)
      else Fin (round64 (a / b)))"
| "true_divide (Fin a) PInf = Fin 0"
| "true_divide (Fin a) NInf = Fin 0"
| "true_divide PInf (Fin b) = (if 0 \<le> b then PInf else NInf)"
| "true_divide NInf (Fin b) = (if 0 \<le> b then NInf else PInf)"
| "true_divide PInf PInf = NaN"
| "true_divide PInf NInf = NaN"
| "true_divide NInf PInf = NaN"
| "true_divide NInf NInf = NaN"

fun np_add :: "npfloat \<Rightarrow> npfloat \<Rightarrow> npfloat" where
  "np_add NaN _ = NaN"
| "np_add _ NaN = NaN"
| "np_add (Fin a) (Fin b) = Fin (round64 (a + b))"
| "np_add (Fin a) PInf = PInf"
| "np_add (Fin a) NInf = NInf"
| "np_add PInf (Fin b) = PInf"
| "np_add NInf (Fin b) = NInf"
| "np_add PInf PInf = PInf"
| "np_add NInf NInf = NInf"
| "np_add PInf NInf = NaN"
| "np_add NInf PInf = NaN"

fun np_negative :: "npfloat \<Rightarrow> npfloat" where
  "np_negative (Fin a) = Fin (- a)"
| "np_negative PInf = NInf"
| "np_negative NInf = PInf"
| "np_negative NaN = NaN"

definition np_subtract :: "npfloat \<Rightarrow> npfloat \<Rightarrow> npfloat" where
  "np_subtract a b = np_add a (np_negative b)"

text \<open>
  The conversion of a count to a float: \<^verbatim>\<open>float(tp)\<close> in the numerators, and the
  conversion a division applies to its integer operand in the denominators.  It rounds as
  the arithmetic does, and is exact for counts up to \<open>2^53\<close>.
\<close>

definition float :: "nat \<Rightarrow> npfloat" where
  "float n = Fin (round64 (of_nat n))"

section \<open>The metric cells\<close>

text \<open>
  \<^verbatim>\<open>
  total_population = tp + fp + tn + fn
  print(float(tp + tn) / total_population)
  print(float(tp) / (tp + fp))
  print(float(tp) / (tp + fn))
  print(float(fp) / (tn + fp))
  specificity = float(tn) / (tn + fp)
  \<close>
  Each function is the value its cell prints or binds.
\<close>

definition accuracy :: "ConfusionCounts \<Rightarrow> npfloat" where
  "accuracy c =
     (let total_population = tp c + fp c + tn c + fn c
      in true_divide (float (tp c + tn c)) (float total_population))"

definition precision :: "ConfusionCounts \<Rightarrow> npfloat" where
  "precision c = true_divide (float (tp c)) (float (tp c + fp c))"

definition recall :: "ConfusionCounts \<Rightarrow> npfloat" where
  "recall c = true_divide (float (tp c)) (float (tp c + fn c))"

definition false_positive_rate :: "ConfusionCounts \<Rightarrow> npfloat" where
  "false_positive_rate c = true_divide (float (fp c)) (float (tn c + fp c))"

definition specificity :: "ConfusionCounts \<Rightarrow> npfloat" where
  "specificity c = true_divide (float (tn c)) (float (tn c + fp c))"

text \<open>
  \<^verbatim>\<open>
  precision_1 = float(tp)/(tp+fp)
  recall_1 = float(tp)/(tp+fn)
  f1_1 = 2/(1/recall_1+1/precision_1)
  \<close>
  The cell computes the harmonic mean through the two reciprocals.
\<close>

definition f1_1 :: "ConfusionCounts \<Rightarrow> npfloat" where
  "f1_1 c =
     (let precision_1 = true_divide (float (tp c)) (float (tp c + fp c));
          recall_1 = true_divide (float (tp c)) (float (tp c + fn c))
      in true_divide (Fin 2)
           (np_add (true_divide (Fin 1) recall_1) (true_divide (Fin 1) precision_1)))"

section \<open>The baseline accuracy\<close>

text \<open>
  \<^verbatim>\<open>baseline_acc = 1. - spam.is_spam.mean()\<close>

  The mean of an integer column is its sum, taken in binary64, over its length; it is
  \<^verbatim>\<open>nan\<close> for an empty column.  The partial sums of a column of labels are whole
  numbers far below \<open>2^53\<close>, so the summation is exact and only its result is converted.
\<close>

definition mean :: "int list \<Rightarrow> npfloat" where
  "mean v = true_divide (Fin (round64 (of_int (sum_list v)))) (float (length v))"

definition baseline_acc :: "int list \<Rightarrow> npfloat" where
  "baseline_acc is_spam = np_subtract (Fin 1) (mean is_spam)"

section \<open>Predictions from a threshold\<close>

text \<open>
  \<^verbatim>\<open>
  threshold = Y_pp['male'].mean()
  Y_pp['predFP'] = [1 if i >= threshold - 0.1 else 0 for i in Y_pp['female'].values]
  print('false positves:', Y_pp.predFP.sum())
  \<close>
  The comprehension is a function of the variable \<^verbatim>\<open>threshold\<close> and of the column of
  scores.  The cut it applies to each score is the binary64 difference of
  \<^verbatim>\<open>threshold\<close> and the binary64 number nearest to one tenth, which the literal
  \<^verbatim>\<open>0.1\<close> denotes.  Scores and threshold are probabilities, hence finite floats, and are
  given by the rationals they stand for.
\<close>

definition predFP :: "rat \<Rightarrow> rat list \<Rightarrow> int list" where
  "predFP threshold female =
     map (\<lambda>i. if i \<ge> round64 (threshold - round64 (1 / 10)) then 1 else 0) female"

text \<open>
  The second and third line of the cell act on the data frame \<^verbatim>\<open>Y_pp\<close>, which was
  built with the two columns \<^verbatim>\<open>male\<close> and \<^verbatim>\<open>female\<close>: the comprehension is stored
  as the column \<^verbatim>\<open>predFP\<close>, new or replaced, and the sum of that column is printed.
  The cell is modelled from the value that the first line gives to \<^verbatim>\<open>threshold\<close>
  (the mean of a column of floats is the data-frame library's summation); it returns the
  frame after the assignment and the number printed.
\<close>

record Y_pp_frame =
  col_male :: "rat list"
  col_female :: "rat list"
  col_predFP :: "int list option"

definition predFP_cell :: "rat \<Rightarrow> Y_pp_frame \<Rightarrow> Y_pp_frame \<times> int" where
  "predFP_cell threshold Y_pp =
     (let Y_pp' = Y_pp\<lparr>col_predFP := Some (predFP threshold (col_female Y_pp))\<rparr>
      in (Y_pp', sum_list (predFP threshold (col_female Y_pp))))"

section \<open>Notions used to state the properties\<close>

text \<open>A binary vector holds no value other than 0 and 1.\<close>

definition binary :: "int list \<Rightarrow> bool" where
  "binary v = list_all (\<lambda>x. x = 0 \<or> x = 1) v"

text \<open>
  Relabelling with the complementary class exchanges 0 and 1 and leaves any other value as
  it is.
\<close>

definition complement :: "int list \<Rightarrow> int list" where
  "complement v = map (\<lambda>x. if x = 0 then 1 else if x = 1 then 0 else x) v"

text \<open>
  The notebook's own definition of the baseline, from its prose:
  \<^verbatim>\<open>baseline_accuracy = majority_class_N / total_N\<close>.
\<close>

definition majority_class_accuracy :: "int list \<Rightarrow> npfloat" where
  "majority_class_accuracy labels =
     (let majority_class_N = max (count_list labels 0) (count_list labels 1);
          total_N = length labels
      in true_divide (float majority_class_N) (float total_N))"

text \<open>
  Two floats are compared through the factor \<open>rho\<close>, by which one rounding can move a
  positive number: \<open>near n x y\<close> holds when \<open>y\<close> lies within the factor \<open>rho ^ n\<close> of
  \<open>x\<close>, below or above.
\<close>

definition rho :: rat where
  "rho = 2 ^ 53 / (2 ^ 53 - 1)"

definition near :: "nat \<Rightarrow> rat \<Rightarrow> rat \<Rightarrow> bool" where
  "near n x y \<longleftrightarrow> x / rho ^ n \<le> y \<and> y \<le> x * rho ^ n"

section \<open>ROC curve and area under it\<close>

text \<open>
  Modelled from the spec: \<^verbatim>\<open>roc_curve\<close> and \<^verbatim>\<open>auc\<close>, which the notebooks only call
  (\<^verbatim>\<open>fpr, tpr, threshold = roc_curve(y_test, Y_pp.class_1_pp)\<close>,
  \<^verbatim>\<open>roc_auc = auc(fpr, tpr)\<close>); their code belongs to the statistics library.  The
  definitions follow the specification: each distinct score is a threshold; a threshold
  \<open>t\<close> predicts positive where the score is at least \<open>t\<close>; its point is the pair of
  false-positive rate \<open>fp / (tn + fp)\<close> and true-positive rate \<open>tp / (tp + fn)\<close>, as the
  real numbers of the specification, of the tally of the labels against these predictions;
  the two end points \<open>(0, 0)\<close> and \<open>(1, 1)\<close> are added; the points are put in
  ascending order of the false-positive rate, ties in ascending order of the true-positive
  rate; the area is the trapezoidal sum over consecutive points.  Labels outside \<open>{0, 1}\<close>,
  vectors of different lengths and empty input are a validation error; labels of one class
  only leave a rate undefined, which is reported as a degenerate input.
\<close>

datatype roc_error = ValidationError | DegenerateInputError

definition threshold_predictions :: "rat \<Rightarrow> rat list \<Rightarrow> int list" where
  "threshold_predictions t scores = map (\<lambda>s. if t \<le> s then 1 else 0) scores"

definition roc_point :: "int list \<Rightarrow> rat list \<Rightarrow> rat \<Rightarrow> roc_error + rat \<times> rat" where
  "roc_point y scores t =
     (case confusion_tally y (threshold_predictions t scores) of
        Inl e \<Rightarrow> Inl ValidationError
      | Inr c \<Rightarrow>
          (if tn c + fp c = 0 \<or> tp c + fn c = 0 then Inl DegenerateInputError
           else Inr (of_nat (fp c) / of_nat (tn c + fp c), of_nat (tp c) / of_nat (tp c + fn c))))"

fun collect :: "('e + 'a) list \<Rightarrow> 'e + 'a list" where
  "collect [] = Inr []"
| "collect (x # xs) =
     (case x of
        Inl e \<Rightarrow> Inl e
      | Inr v \<Rightarrow> (case collect xs of Inl e \<Rightarrow> Inl e | Inr vs \<Rightarrow> Inr (v # vs)))"

definition roc_curve :: "int list \<Rightarrow> rat list \<Rightarrow> roc_error + (rat \<times> rat) list" where
  "roc_curve y scores =
     (if y = [] \<or> length y \<noteq> length scores \<or> \<not> binary y then Inl ValidationError
      else case collect (map (roc_point y scores) (remdups scores)) of
             Inl e \<Rightarrow> Inl e
           | Inr points \<Rightarrow> Inr (sort ((0, 0) # points @ [(1, 1)])))"

fun auc :: "(rat \<times> rat) list \<Rightarrow> rat" where
  "auc (p # q # ps) = (fst q - fst p) * (snd q + snd p) / 2 + auc (q # ps)"
| "auc _ = 0"

definition roc_auc :: "int list \<Rightarrow> rat list \<Rightarrow> roc_error + rat" where
  "roc_auc y scores =
     (case roc_curve y scores of Inl e \<Rightarrow> Inl e | Inr curve \<Rightarrow> Inr (auc curve))"

section \<open>Facts about rounding\<close>

lemma pow2_powi: "pow2 k = 2 powi k"
  by (simp add: pow2_def power_int_def field_simps)

lemma pow2_pos: "0 < pow2 k"
  by (simp add: pow2_powi)

lemma pow2_add: "pow2 (j + k) = pow2 j * pow2 k"
  by (simp add: pow2_powi power_int_add)

lemma pow2_nat: "pow2 (int n) = 2 ^ n"
  by (simp add: pow2_def)

lemma pow2_neg_nat: "pow2 (- int n) = 1 / 2 ^ n"
  by (simp add: pow2_powi power_int_minus field_simps)

lemma expo_bounds:
  assumes "0 < x"
  shows "pow2 (expo x) \<le> x" and "x < pow2 (expo x + 1)"
proof -
  show "pow2 (expo x) \<le> x"
  proof (cases "1 \<le> x")
    case True
    then have n: "0 < \<lfloor>x\<rfloor>" by simp
    from bitlen_bounds[OF n] have "2 ^ nat (bitlen \<lfloor>x\<rfloor> - 1) \<le> \<lfloor>x\<rfloor>" by simp
    then have "(of_int (2 ^ nat (bitlen \<lfloor>x\<rfloor> - 1)) :: rat) \<le> of_int \<lfloor>x\<rfloor>"
      by (simp only: of_int_le_iff)
    also have "\<dots> \<le> x" by simp
    finally have "(2::rat) ^ nat (bitlen \<lfloor>x\<rfloor> - 1) \<le> x" by simp
    moreover have "0 \<le> bitlen \<lfloor>x\<rfloor> - 1"
      using n by (simp add: bitlen_alt_def)
    ultimately show ?thesis using True by (simp add: expo_def pow2_def)
  next
    case False
    let ?m = "\<lceil>1 / x\<rceil>"
    from False assms have "1 < 1 / x" by (simp add: field_simps)
    then have m: "0 < ?m - 1" by (simp add: less_ceiling_iff)
    from bitlen_bounds[OF m] have "?m - 1 < 2 ^ nat (bitlen (?m - 1))" by simp
    then have "?m \<le> 2 ^ nat (bitlen (?m - 1))" by simp
    then have "(of_int ?m :: rat) \<le> of_int (2 ^ nat (bitlen (?m - 1)))"
      by (simp only: of_int_le_iff)
    with le_of_int_ceiling[of "1 / x"]
    have "1 / x \<le> of_int (2 ^ nat (bitlen (?m - 1)))"
      by (rule order_trans)
    then have "1 / x \<le> 2 ^ nat (bitlen (?m - 1))"
      by simp
    then have "1 / 2 ^ nat (bitlen (?m - 1)) \<le> x"
      using assms by (simp add: field_simps)
    moreover have "pow2 (- bitlen (?m - 1)) = 1 / 2 ^ nat (bitlen (?m - 1))"
      using pow2_neg_nat[of "nat (bitlen (?m - 1))"] bitlen_nonneg[of "?m - 1"] by simp
    ultimately show ?thesis using False by (simp add: expo_def)
  qed
  show "x < pow2 (expo x + 1)"
  proof (cases "1 \<le> x")
    case True
    then have n: "0 < \<lfloor>x\<rfloor>" by simp
    from bitlen_bounds[OF n] have "\<lfloor>x\<rfloor> + 1 \<le> 2 ^ nat (bitlen \<lfloor>x\<rfloor>)" by simp
    then have "(of_int (\<lfloor>x\<rfloor> + 1) :: rat) \<le> of_int (2 ^ nat (bitlen \<lfloor>x\<rfloor>))"
      by (simp only: of_int_le_iff)
    moreover have "x < of_int (\<lfloor>x\<rfloor> + 1)" by linarith
    ultimately have "x < 2 ^ nat (bitlen \<lfloor>x\<rfloor>)" by simp
    moreover have "0 \<le> bitlen \<lfloor>x\<rfloor>" by (rule bitlen_nonneg)
    ultimately show ?thesis using True by (simp add: expo_def pow2_def)
  next
    case False
    let ?m = "\<lceil>1 / x\<rceil>"
    let ?j = "bitlen (?m - 1)"
    from False assms have "1 < 1 / x" by (simp add: field_simps)
    then have m: "0 < ?m - 1" by (simp add: less_ceiling_iff)
    then have j: "1 \<le> ?j" by (simp add: bitlen_alt_def)
    from bitlen_bounds[OF m] have "2 ^ nat (?j - 1) \<le> ?m - 1" by simp
    then have "(of_int (2 ^ nat (?j - 1)) :: rat) \<le> of_int (?m - 1)"
      by (simp only: of_int_le_iff)
    moreover have "of_int (?m - 1) < 1 / x" by linarith
    ultimately have "2 ^ nat (?j - 1) < 1 / x" by simp
    then have "x < 1 / 2 ^ nat (?j - 1)"
      using assms by (simp add: field_simps)
    moreover have "pow2 (- ?j + 1) = 1 / 2 ^ nat (?j - 1)"
      using pow2_neg_nat[of "nat (?j - 1)"] j by simp
    ultimately show ?thesis using False by (simp add: expo_def)
  qed
qed

lemma rne_error: "\<bar>of_int (rne m) - m\<bar> \<le> 1 / 2"
proof -
  have "of_int \<lfloor>m\<rfloor> \<le> m" "m < of_int \<lfloor>m\<rfloor> + 1" by linarith+
  then show ?thesis
    by (auto simp: rne_def Let_def abs_le_iff)
qed

lemma round64_error: "\<bar>round64 x - x\<bar> \<le> \<bar>x\<bar> / 2 ^ 53"
proof (cases "x = 0")
  case True
  then show ?thesis by (simp add: round64_def)
next
  case False
  define e where "e = expo \<bar>x\<bar>"
  define ulp where "ulp = pow2 (e - 52)"
  have pos: "0 < ulp" by (simp add: ulp_def pow2_pos)
  have r: "round64 x = of_int (rne (x / ulp)) * ulp"
    using False by (simp add: round64_def ulp_def e_def Let_def)
  have "round64 x - x = (of_int (rne (x / ulp)) - x / ulp) * ulp"
    using pos by (simp add: r field_simps)
  then have "\<bar>round64 x - x\<bar> = \<bar>of_int (rne (x / ulp)) - x / ulp\<bar> * ulp"
    using pos by (simp add: abs_mult)
  also have "\<dots> \<le> 1 / 2 * ulp"
    using rne_error[of "x / ulp"] pos by (intro mult_right_mono) simp_all
  also have "ulp = pow2 e / 2 ^ 52"
    using pow2_add[of e "- 52"] pow2_neg_nat[of 52] by (simp add: ulp_def)
  also have "1 / 2 * (pow2 e / 2 ^ 52) = pow2 e / 2 ^ 53" by simp
  also have "\<dots> \<le> \<bar>x\<bar> / 2 ^ 53"
    using expo_bounds(1)[of "\<bar>x\<bar>"] False by (simp add: e_def divide_right_mono)
  finally show ?thesis .
qed

lemma round64_zero: "round64 0 = 0"
  by (simp add: round64_def)

lemma round64_pos: "0 < x \<Longrightarrow> 0 < round64 x"
proof -
  assume x: "0 < x"
  define e where "e = x / 2 ^ 53"
  have "e < x" using x by (simp add: e_def field_simps)
  moreover have "\<bar>round64 x - x\<bar> \<le> e"
    using round64_error[of x] x by (simp add: e_def)
  ultimately show ?thesis by linarith
qed

lemma round64_eq_0_iff: "round64 x = 0 \<longleftrightarrow> x = 0"
proof
  assume z: "round64 x = 0"
  show "x = 0"
  proof (rule ccontr)
    assume "x \<noteq> 0"
    then have "\<bar>x\<bar> / 2 ^ 53 < \<bar>x\<bar>" by (simp add: field_simps)
    with round64_error[of x] z show False by simp
  qed
qed (simp add: round64_zero)

lemma rho_gt_1: "1 < rho"
  by (simp add: rho_def)

lemma rho_pow_pos: "0 < rho ^ n"
  using rho_gt_1 by simp

lemma near_round64:
  assumes "0 \<le> x"
  shows "near 1 x (round64 x)"
proof -
  define d :: rat where "d = 2 ^ 53"
  have d: "1 < d" by (simp add: d_def)
  have rho: "rho = d / (d - 1)" by (simp add: rho_def d_def)
  have "\<bar>round64 x - x\<bar> \<le> x / d"
    using round64_error[of x] assms by (simp add: d_def)
  then have lo: "x - x / d \<le> round64 x" and hi: "round64 x \<le> x + x / d"
    by linarith+
  have eq: "x / rho = x - x / d"
    using d by (simp add: rho field_simps)
  have "(d + 1) * (d - 1) \<le> d * d"
    by (simp add: algebra_simps)
  then have "(d + 1) / d \<le> d / (d - 1)"
    using d by (simp add: field_simps)
  then have "1 + 1 / d \<le> rho"
    using d by (simp add: rho add_divide_distrib)
  then have "x * (1 + 1 / d) \<le> x * rho"
    using assms by (rule mult_left_mono)
  then have up: "x + x / d \<le> x * rho"
    by (simp add: algebra_simps)
  show ?thesis
    unfolding near_def power_one_right
  proof (intro conjI)
    show "x / rho \<le> round64 x" using eq lo by linarith
    show "round64 x \<le> x * rho" using up hi by linarith
  qed
qed

lemma near_refl: "near 0 x x"
  by (simp add: near_def)

lemma near_pos: "near n x y \<Longrightarrow> 0 < x \<Longrightarrow> 0 < y"
proof -
  assume "near n x y" and x: "0 < x"
  then have "x / rho ^ n \<le> y" by (simp add: near_def)
  moreover have "0 < x / rho ^ n" using x rho_pow_pos[of n] by simp
  ultimately show ?thesis by simp
qed

lemma near_nonneg: "near n x y \<Longrightarrow> 0 \<le> x \<Longrightarrow> 0 \<le> y"
proof -
  assume "near n x y" and x: "0 \<le> x"
  then have "x / rho ^ n \<le> y" by (simp add: near_def)
  moreover have "0 \<le> x / rho ^ n" using x rho_pow_pos[of n] by simp
  ultimately show ?thesis by simp
qed

lemma near_trans:
  assumes "near m x y" and "near n y z"
  shows "near (m + n) x z"
proof -
  from assms have 1: "x / rho ^ m \<le> y" and 2: "y \<le> x * rho ^ m"
    and 3: "y / rho ^ n \<le> z" and 4: "z \<le> y * rho ^ n"
    by (simp_all add: near_def)
  have "x / rho ^ (m + n) = (x / rho ^ m) / rho ^ n"
    by (simp add: power_add)
  also have "\<dots> \<le> y / rho ^ n"
    using 1 by (rule divide_right_mono) (simp add: less_imp_le[OF rho_pow_pos])
  also note 3
  finally have lo: "x / rho ^ (m + n) \<le> z" .
  have "y * rho ^ n \<le> (x * rho ^ m) * rho ^ n"
    using 2 by (rule mult_right_mono) (simp add: less_imp_le[OF rho_pow_pos])
  with 4 have "z \<le> x * rho ^ (m + n)"
    by (simp add: power_add mult.assoc)
  with lo show ?thesis by (simp add: near_def)
qed

lemma near_add:
  assumes "near n a a'" and "near n b b'"
  shows "near n (a + b) (a' + b')"
  using assms by (simp add: near_def add_divide_distrib distrib_right add_mono)

lemma near_divide:
  assumes "near m a a'" and "near n b b'" and "0 \<le> a" and "0 < b"
  shows "near (m + n) (a / b) (a' / b')"
proof -
  from assms(1) have a1: "a / rho ^ m \<le> a'" and a2: "a' \<le> a * rho ^ m"
    by (simp_all add: near_def)
  from assms(2) have b1: "b / rho ^ n \<le> b'" and b2: "b' \<le> b * rho ^ n"
    by (simp_all add: near_def)
  have b': "0 < b'" using near_pos[OF assms(2,4)] .
  have a': "0 \<le> a'" using near_nonneg[OF assms(1,3)] .
  have pm: "0 < rho ^ m" and pn: "0 < rho ^ n" by (rule rho_pow_pos)+
  have "(a / rho ^ m) / (b * rho ^ n) \<le> a' / b'"
    using a' a1 b' b2 by (rule frac_le)
  moreover have "(a / rho ^ m) / (b * rho ^ n) = (a / b) / rho ^ (m + n)"
    by (simp add: power_add ac_simps)
  ultimately have lo: "(a / b) / rho ^ (m + n) \<le> a' / b'"
    by (simp only:)
  have "0 \<le> a * rho ^ m" and "0 < b / rho ^ n"
    using assms(3,4) pm pn by simp_all
  then have "a' / b' \<le> (a * rho ^ m) / (b / rho ^ n)"
    using a2 b1 by (intro frac_le)
  moreover have "(a * rho ^ m) / (b / rho ^ n) = (a / b) * rho ^ (m + n)"
    by (simp add: power_add ac_simps)
  ultimately have "a' / b' \<le> (a / b) * rho ^ (m + n)"
    by (simp only:)
  with lo show ?thesis by (simp add: near_def)
qed

lemma rho_pow_3: "rho ^ 3 \<le> 1 + 1 / 2 ^ 51" "1 - 1 / 2 ^ 51 \<le> 1 / rho ^ 3"
  by (simp_all add: rho_def power_divide divide_simps)

lemma rho_pow_6: "rho ^ 6 \<le> 1 + 1 / 2 ^ 49" "1 - 1 / 2 ^ 49 \<le> 1 / rho ^ 6"
  by (simp_all add: rho_def power_divide divide_simps)

section \<open>Facts about the tally\<close>

lemma tally_cell_zip:
  "length y = length predicted \<Longrightarrow>
   tally_cell y a predicted b = Inr (length (filter (\<lambda>(u, v). u = a \<and> v = b) (zip y predicted)))"
  unfolding tally_cell_def np_and_def np_eq_def np_sum_def
  by (simp add: zip_map_map filter_map o_def case_prod_unfold)

lemma tally_cell_card:
  "length y = length predicted \<Longrightarrow>
   tally_cell y a predicted b = Inr (card {i. i < length y \<and> y ! i = a \<and> predicted ! i = b})"
proof -
  assume len: "length y = length predicted"
  have "{i. i < length (zip y predicted) \<and> (case zip y predicted ! i of (u, v) \<Rightarrow> u = a \<and> v = b)}
        = {i. i < length y \<and> y ! i = a \<and> predicted ! i = b}"
    using len by auto
  then show ?thesis
    using len by (simp add: tally_cell_zip length_filter_conv_card)
qed

lemma four_way_partition:
  assumes "\<forall>p \<in> set ps. (fst p = 0 \<or> fst p = 1) \<and> (snd p = 0 \<or> snd p = 1)"
  shows "length (filter (\<lambda>(u, v). u = (1::int) \<and> v = (1::int)) ps)
   + length (filter (\<lambda>(u, v). u = 0 \<and> v = 1) ps)
   + length (filter (\<lambda>(u, v). u = 0 \<and> v = 0) ps)
   + length (filter (\<lambda>(u, v). u = 1 \<and> v = 0) ps) = length ps"
  using assms
proof (induction ps)
  case Nil
  then show ?case by simp
next
  case (Cons p ps)
  obtain u v where p: "p = (u, v)" by (cases p)
  from Cons.prems p have uv: "(u = 0 \<or> u = 1) \<and> (v = 0 \<or> v = 1)" by simp
  from Cons.prems have "\<forall>p \<in> set ps. (fst p = 0 \<or> fst p = 1) \<and> (snd p = 0 \<or> snd p = 1)" by simp
  from Cons.IH[OF this] uv show ?case unfolding p by auto
qed

lemma complement_cell:
  assumes "length y = length predicted" and "a = 0 \<or> a = 1" and "b = 0 \<or> b = 1"
  shows "tally_cell (complement y) a (complement predicted) b = tally_cell y (1 - a) predicted (1 - b)"
proof -
  have "filter (\<lambda>(u, v). u = a \<and> v = b) (zip (complement y) (complement predicted))
        = map (\<lambda>(u, v). (if u = 0 then 1 else if u = 1 then 0 else u, if v = 0 then 1 else if v = 1 then 0 else v))
            (filter (\<lambda>(u, v). u = 1 - a \<and> v = 1 - b) (zip y predicted))"
    using assms(2,3) unfolding complement_def zip_map_map filter_map
    by (intro arg_cong[where f="map _"] filter_cong) (auto simp: o_def split: if_splits)
  then have "length (filter (\<lambda>(u, v). u = a \<and> v = b) (zip (complement y) (complement predicted)))
        = length (filter (\<lambda>(u, v). u = 1 - a \<and> v = 1 - b) (zip y predicted))"
    by simp
  with assms(1) show ?thesis
    by (simp add: tally_cell_zip complement_def)
qed

lemma np_and_mismatch:
  "length a \<noteq> length b \<Longrightarrow> length a \<noteq> 1 \<Longrightarrow> length b \<noteq> 1 \<Longrightarrow> np_and a b = Inl ValueError"
  by (simp add: np_and_def)

text \<open>
  C1.  For two vectors of equal length the tally returns the four counts: \<open>tp\<close> is the
  number of positions with label 1 and prediction 1, \<open>fp\<close> with label 0 and prediction 1,
  \<open>tn\<close> with label 0 and prediction 0, \<open>fn\<close> with label 1 and prediction 0.  The result is
  a function of the two vectors alone.
\<close>

theorem tally_counts:
  assumes "length y = length predicted"
  shows "confusion_tally y predicted =
           Inr \<lparr>tp = card {i. i < length y \<and> y ! i = 1 \<and> predicted ! i = 1},
                fp = card {i. i < length y \<and> y ! i = 0 \<and> predicted ! i = 1},
                tn = card {i. i < length y \<and> y ! i = 0 \<and> predicted ! i = 0},
                fn = card {i. i < length y \<and> y ! i = 1 \<and> predicted ! i = 0}\<rparr>"
  using assms by (simp add: confusion_tally_def tally_cell_card)

theorem tally_counts_witness:
  "length [1, 1, 0, 0, 1, 0 :: int] = length [1, 0, 0, 1, 1, 0 :: int]
   \<and> confusion_tally [1, 1, 0, 0, 1, 0] [1, 0, 0, 1, 1, 0] = Inr \<lparr>tp = 2, fp = 1, tn = 2, fn = 1\<rparr>
   \<and> card {i. i < length [1, 1, 0, 0, 1, 0 :: int]
              \<and> [1, 1, 0, 0, 1, 0 :: int] ! i = 1 \<and> [1, 0, 0, 1, 1, 0 :: int] ! i = 1} = 2"
proof -
  have h: "length [1, 1, 0, 0, 1, 0 :: int] = length [1, 0, 0, 1, 1, 0 :: int]"
    by simp
  have v: "confusion_tally [1, 1, 0, 0, 1, 0] [1, 0, 0, 1, 1, 0] = Inr \<lparr>tp = 2, fp = 1, tn = 2, fn = 1\<rparr>"
    by (simp add: confusion_tally_def tally_cell_def np_and_def np_eq_def np_sum_def)
  from tally_counts[OF h] v
  have "card {i. i < length [1, 1, 0, 0, 1, 0 :: int]
              \<and> [1, 1, 0, 0, 1, 0 :: int] ! i = 1 \<and> [1, 0, 0, 1, 1, 0 :: int] ! i = 1} = 2"
    by (simp only: sum.inject ConfusionCounts.ext_inject)
  with h v show ?thesis by blast
qed

text \<open>
  C2 as stated fails: no metric cell raises.  For the labels and predictions
  \<open>[1, 1, 1, 1]\<close> the tally has no negative example, and the specificity and the
  false-positive rate are the value \<open>NaN\<close>; so are the precision without a predicted
  positive and the recall without a positive label.
\<close>

theorem undefined_metric_counterexample:
  "confusion_tally [1, 1, 1, 1] [1, 1, 1, 1] = Inr \<lparr>tp = 4, fp = 0, tn = 0, fn = 0\<rparr>
   \<and> specificity \<lparr>tp = 4, fp = 0, tn = 0, fn = 0\<rparr> = NaN
   \<and> false_positive_rate \<lparr>tp = 4, fp = 0, tn = 0, fn = 0\<rparr> = NaN
   \<and> precision \<lparr>tp = 0, fp = 0, tn = 3, fn = 1\<rparr> = NaN
   \<and> recall \<lparr>tp = 0, fp = 1, tn = 3, fn = 0\<rparr> = NaN"
  by (simp add: confusion_tally_def tally_cell_def np_and_def np_eq_def np_sum_def
      specificity_def false_positive_rate_def precision_def recall_def float_def round64_zero)

lemma ratio_of_counts:
  "true_divide (float a) (float b) =
     (if b = 0 then (if a = 0 then NaN else PInf)
      else Fin (round64 (round64 (of_nat a) / round64 (of_nat b))))"
proof -
  have "0 < round64 (of_nat a :: rat)" if "a \<noteq> 0"
    using that by (intro round64_pos) simp
  then show ?thesis
    by (auto simp: float_def round64_eq_0_iff round64_zero)
qed

text \<open>
  C2, amended.  A ratio with an empty denominator evaluates to \<open>NaN\<close>, which is neither 0
  nor any other number, and to \<open>NaN\<close> in that case only: the precision exactly when
  \<open>tp + fp = 0\<close>, the recall exactly when \<open>tp + fn = 0\<close>, the specificity and the
  false-positive rate exactly when \<open>tn + fp = 0\<close>.
\<close>

theorem zero_denominator_gives_nan:
  "(precision c = NaN \<longleftrightarrow> tp c + fp c = 0)
   \<and> (recall c = NaN \<longleftrightarrow> tp c + fn c = 0)
   \<and> (specificity c = NaN \<longleftrightarrow> tn c + fp c = 0)
   \<and> (false_positive_rate c = NaN \<longleftrightarrow> tn c + fp c = 0)"
  by (simp add: precision_def recall_def specificity_def false_positive_rate_def ratio_of_counts
      del: of_nat_add)

theorem zero_denominator_gives_nan_witness:
  "specificity \<lparr>tp = 4, fp = 0, tn = 0, fn = 0\<rparr> = NaN
   \<and> false_positive_rate \<lparr>tp = 4, fp = 0, tn = 0, fn = 0\<rparr> = NaN
   \<and> precision \<lparr>tp = 4, fp = 0, tn = 0, fn = 0\<rparr> \<noteq> NaN
   \<and> recall \<lparr>tp = 4, fp = 0, tn = 0, fn = 0\<rparr> \<noteq> NaN"
  using zero_denominator_gives_nan[of "\<lparr>tp = 4, fp = 0, tn = 0, fn = 0\<rparr>"] by simp

text \<open>
  C3 as stated fails: the tally validates nothing.  Empty vectors give four zeros, and
  values other than 0 and 1 are counted in no cell.
\<close>

theorem tally_validation_counterexample:
  "confusion_tally [] [] = Inr \<lparr>tp = 0, fp = 0, tn = 0, fn = 0\<rparr>
   \<and> confusion_tally [2, 1, 0] [1, 1, 3] = Inr \<lparr>tp = 1, fp = 0, tn = 0, fn = 0\<rparr>"
  by (simp add: confusion_tally_def tally_cell_def np_and_def np_eq_def np_sum_def)

text \<open>
  C3, amended.  The tally returns counts for every two vectors of equal length, whatever
  their values and also when they are empty; it fails, with the array library's
  \<open>ValueError\<close>, when the lengths differ and neither is one.
\<close>

theorem tally_failure_cases:
  "(length y = length predicted \<longrightarrow> (\<exists>c. confusion_tally y predicted = Inr c))
   \<and> (length y \<noteq> length predicted \<and> length y \<noteq> 1 \<and> length predicted \<noteq> 1
        \<longrightarrow> confusion_tally y predicted = Inl ValueError)"
proof (intro conjI impI)
  assume "length y = length predicted"
  then show "\<exists>c. confusion_tally y predicted = Inr c"
    by (simp add: confusion_tally_def tally_cell_zip)
next
  assume "length y \<noteq> length predicted \<and> length y \<noteq> 1 \<and> length predicted \<noteq> 1"
  then have "tally_cell y 1 predicted 1 = Inl ValueError"
    by (simp add: tally_cell_def np_and_mismatch np_eq_def)
  then show "confusion_tally y predicted = Inl ValueError"
    by (simp add: confusion_tally_def)
qed

theorem tally_failure_cases_witness:
  "length [2, 1, 0 :: int] = length [1, 1, 3 :: int]
   \<and> (\<exists>c. confusion_tally [2, 1, 0] [1, 1, 3] = Inr c)
   \<and> length [1, 0 :: int] \<noteq> length [1, 0, 1 :: int]
   \<and> confusion_tally [1, 0] [1, 0, 1] = Inl ValueError"
  using tally_failure_cases[of "[2, 1, 0]" "[1, 1, 3]"] tally_failure_cases[of "[1, 0]" "[1, 0, 1]"]
  by simp

text \<open>
  C4.  For two binary vectors of equal length \<open>N\<close> the tally returns counts, and the four
  counts add up to \<open>N\<close>.
\<close>

theorem tally_total:
  assumes "length y = length predicted" and "binary y" and "binary predicted"
  shows "\<exists>c. confusion_tally y predicted = Inr c \<and> tp c + fp c + tn c + fn c = length y"
proof -
  have "\<forall>p \<in> set (zip y predicted). (fst p = 0 \<or> fst p = 1) \<and> (snd p = 0 \<or> snd p = 1)"
    using assms(2,3) by (auto simp: binary_def list_all_iff dest: set_zip_leftD set_zip_rightD)
  from four_way_partition[OF this] assms(1) show ?thesis
    by (simp add: confusion_tally_def tally_cell_zip)
qed

theorem tally_total_witness:
  "length [1, 1, 0, 0, 1, 0 :: int] = length [1, 0, 0, 1, 1, 0 :: int]
   \<and> binary [1, 1, 0, 0, 1, 0] \<and> binary [1, 0, 0, 1, 1, 0]
   \<and> (\<exists>c. confusion_tally [1, 1, 0, 0, 1, 0] [1, 0, 0, 1, 1, 0] = Inr c
          \<and> tp c + fp c + tn c + fn c = length [1, 1, 0, 0, 1, 0 :: int])"
  using tally_total[of "[1, 1, 0, 0, 1, 0]" "[1, 0, 0, 1, 1, 0]"]
  by (simp add: binary_def)

section \<open>Facts about the metrics\<close>

text \<open>
  A ratio of two counts, as the cells compute it, lies within three roundings of the exact
  quotient: one for each conversion and one for the division.
\<close>

lemma near_ratio:
  assumes "b \<noteq> 0"
  shows "\<exists>q. true_divide (float a) (float b) = Fin q \<and> near 3 (of_nat a / of_nat b) q"
proof -
  let ?A = "of_nat a :: rat" and ?B = "of_nat b :: rat"
  have B: "0 < ?B" using assms by simp
  have "near (1 + 1) (?A / ?B) (round64 ?A / round64 ?B)"
    using near_round64[of ?A] near_round64[of ?B] B by (intro near_divide) simp_all
  moreover have "0 \<le> round64 ?A / round64 ?B"
    using near_nonneg[OF near_round64[of ?A]] near_nonneg[OF near_round64[of ?B]] by simp
  then have "near 1 (round64 ?A / round64 ?B) (round64 (round64 ?A / round64 ?B))"
    by (rule near_round64)
  ultimately have "near (1 + 1 + 1) (?A / ?B) (round64 (round64 ?A / round64 ?B))"
    by (rule near_trans)
  moreover have "(1::nat) + 1 + 1 = 3" by simp
  ultimately have "near 3 (?A / ?B) (round64 (round64 ?A / round64 ?B))"
    by (simp only:)
  then show ?thesis
    using assms by (simp add: ratio_of_counts)
qed

lemma near_abs:
  assumes "near n x y" and "0 \<le> x" and "rho ^ n \<le> 1 + e" and "1 - e \<le> 1 / rho ^ n"
  shows "\<bar>y - x\<bar> \<le> x * e"
proof -
  from assms(1) have lo: "x / rho ^ n \<le> y" and hi: "y \<le> x * rho ^ n"
    by (simp_all add: near_def)
  have "x * rho ^ n \<le> x * (1 + e)"
    using assms(3,2) by (rule mult_left_mono)
  with hi have 1: "y \<le> x + x * e" by (simp add: algebra_simps)
  have "x * (1 - e) \<le> x * (1 / rho ^ n)"
    using assms(4,2) by (rule mult_left_mono)
  with lo have 2: "x - x * e \<le> y" by (simp add: algebra_simps)
  from 1 2 show ?thesis by linarith
qed

lemma near_reciprocal:
  assumes "near n x y" and "0 < x" and "0 \<le> k"
  shows "near n (k / x) (k / y)"
  using near_divide[OF near_refl[of k] assms(1) assms(3) assms(2)] by simp

lemma harmonic_between:
  fixes p r :: rat
  assumes "0 < p" and "0 < r"
  shows "2 / (1 / r + 1 / p) = 2 * p * r / (p + r)"
    and "min p r \<le> 2 * p * r / (p + r)"
    and "2 * p * r / (p + r) \<le> max p r"
proof -
  show "2 / (1 / r + 1 / p) = 2 * p * r / (p + r)"
    using assms by (simp add: field_simps)
  have pos: "0 < p + r" using assms by simp
  show "min p r \<le> 2 * p * r / (p + r)"
  proof (cases "p \<le> r")
    case True
    then have "p * (p + r) \<le> 2 * p * r"
      using assms by (simp add: algebra_simps)
    then show ?thesis using True pos by (simp add: field_simps)
  next
    case False
    then have "r * (p + r) \<le> 2 * p * r"
      using assms by (simp add: algebra_simps)
    then show ?thesis using False pos by (simp add: field_simps min_def)
  qed
  show "2 * p * r / (p + r) \<le> max p r"
  proof (cases "p \<le> r")
    case True
    then have "2 * p * r \<le> r * (p + r)"
      using assms by (simp add: algebra_simps)
    then show ?thesis using True pos by (simp add: field_simps max_def)
  next
    case False
    then have "2 * p * r \<le> p * (p + r)"
      using assms by (simp add: algebra_simps)
    then show ?thesis using False pos by (simp add: field_simps max_def)
  qed
qed

lemma true_divide_NaN_right: "true_divide x NaN = NaN"
  by (cases x) simp_all

lemma np_add_NaN_right: "np_add x NaN = NaN"
  by (cases x) simp_all

text \<open>
  C5 as stated fails: with no true positive, one false positive and one false negative the
  precision and the recall are both 0, their sum is 0, and the F1 cell returns the number 0:
  each reciprocal is \<open>inf\<close>, their sum is \<open>inf\<close>, and 2 divided by it is 0.
\<close>

theorem f1_zero_counterexample:
  "precision \<lparr>tp = 0, fp = 1, tn = 0, fn = 1\<rparr> = Fin 0
   \<and> recall \<lparr>tp = 0, fp = 1, tn = 0, fn = 1\<rparr> = Fin 0
   \<and> f1_1 \<lparr>tp = 0, fp = 1, tn = 0, fn = 1\<rparr> = Fin 0"
  by code_simp

text \<open>
  Nor does F1 always lie between the precision and the recall: with 5 true positives, 8
  false positives and 8 false negatives both are \<open>0.38461538461538464\<close>, and the three
  roundings of the cell give \<open>0.3846153846153847\<close>, the next float above.
\<close>

lemma f1_above_precision_and_recall:
  "precision \<lparr>tp = 5, fp = 8, tn = 0, fn = 8\<rparr> = Fin (6928614811339225 / 18014398509481984)"
  "recall \<lparr>tp = 5, fp = 8, tn = 0, fn = 8\<rparr> = Fin (6928614811339225 / 18014398509481984)"
  "f1_1 \<lparr>tp = 5, fp = 8, tn = 0, fn = 8\<rparr> = Fin (3464307405669613 / 9007199254740992)"
  "(6928614811339225 / 18014398509481984 :: rat) < 3464307405669613 / 9007199254740992"
  by code_simp+

text \<open>
  C5, amended.  When the precision or the recall is \<open>NaN\<close>, so is F1.  When both are 0,
  F1 is 0.  When there is a true positive, F1 is a number within the relative error
  \<open>2^-49\<close> of \<open>2 P R / (P + R)\<close>, where \<open>P = tp / (tp + fp)\<close> and \<open>R = tp / (tp + fn)\<close>
  are the exact ratios; it therefore lies between \<open>min P R\<close> and \<open>max P R\<close> up to that
  relative error.
\<close>

theorem f1_harmonic_mean:
  fixes c :: ConfusionCounts
  defines "P \<equiv> of_nat (tp c) / of_nat (tp c + fp c)"
    and "R \<equiv> of_nat (tp c) / of_nat (tp c + fn c)"
  shows "(precision c = NaN \<or> recall c = NaN \<longrightarrow> f1_1 c = NaN)
   \<and> (precision c = Fin 0 \<and> recall c = Fin 0 \<longrightarrow> f1_1 c = Fin 0)
   \<and> (0 < tp c \<longrightarrow>
        (\<exists>F. f1_1 c = Fin F
           \<and> \<bar>F - 2 * P * R / (P + R)\<bar> \<le> (2 * P * R / (P + R)) / 2 ^ 49
           \<and> min P R * (1 - 1 / 2 ^ 49) \<le> F \<and> F \<le> max P R * (1 + 1 / 2 ^ 49)))"
proof (intro conjI impI)
  assume "precision c = NaN \<or> recall c = NaN"
  then show "f1_1 c = NaN"
    by (auto simp: precision_def recall_def f1_1_def Let_def true_divide_NaN_right np_add_NaN_right)
next
  assume "precision c = Fin 0 \<and> recall c = Fin 0"
  then show "f1_1 c = Fin 0"
    by (simp add: precision_def recall_def f1_1_def Let_def)
next
  assume pos: "0 < tp c"
  define e :: rat where "e = 1 / 2 ^ 49"
  define H where "H = 2 * P * R / (P + R)"
  have nzp: "tp c + fp c \<noteq> 0" and nzr: "tp c + fn c \<noteq> 0" using pos by simp_all
  have P: "0 < P" and R: "0 < R"
    using pos by (simp_all add: P_def R_def del: of_nat_add)
  from near_ratio[OF nzp, of "tp c"] obtain p
    where p: "true_divide (float (tp c)) (float (tp c + fp c)) = Fin p" and np: "near 3 P p"
    by (auto simp: P_def)
  from near_ratio[OF nzr, of "tp c"] obtain r
    where r: "true_divide (float (tp c)) (float (tp c + fn c)) = Fin r" and nr: "near 3 R r"
    by (auto simp: R_def)
  have p0: "0 < p" and r0: "0 < r"
    using near_pos[OF np P] near_pos[OF nr R] .
  define a where "a = round64 (1 / r)"
  define b where "b = round64 (1 / p)"
  define s where "s = round64 (a + b)"
  define F where "F = round64 (2 / s)"
  have three: "(3::nat) + 1 = 4" "(4::nat) + 1 = 5" "(5::nat) + 1 = 6" by simp_all
  have "near 3 (1 / R) (1 / r)" using nr R by (rule near_reciprocal) simp
  moreover have "near 1 (1 / r) a" unfolding a_def using r0 by (intro near_round64) simp
  ultimately have "near (3 + 1) (1 / R) a" by (rule near_trans)
  then have na: "near 4 (1 / R) a" by (simp only: three)
  have "near 3 (1 / P) (1 / p)" using np P by (rule near_reciprocal) simp
  moreover have "near 1 (1 / p) b" unfolding b_def using p0 by (intro near_round64) simp
  ultimately have "near (3 + 1) (1 / P) b" by (rule near_trans)
  then have nb: "near 4 (1 / P) b" by (simp only: three)
  have sum_pos: "0 < 1 / R + 1 / P" using P R by (simp add: add_pos_pos)
  have nab: "near 4 (1 / R + 1 / P) (a + b)" using na nb by (rule near_add)
  have ab0: "0 < a + b" using near_pos[OF nab sum_pos] .
  have "near 1 (a + b) s" unfolding s_def using ab0 by (intro near_round64) simp
  with nab have "near (4 + 1) (1 / R + 1 / P) s" by (rule near_trans)
  then have ns: "near 5 (1 / R + 1 / P) s" by (simp only: three)
  have s0: "0 < s" using near_pos[OF ns sum_pos] .
  have n2: "near 5 (2 / (1 / R + 1 / P)) (2 / s)"
    using ns sum_pos by (rule near_reciprocal) simp
  have "near 1 (2 / s) F" unfolding F_def using s0 by (intro near_round64) simp
  with n2 have "near (5 + 1) (2 / (1 / R + 1 / P)) F" by (rule near_trans)
  then have "near 6 (2 / (1 / R + 1 / P)) F" by (simp only: three)
  then have nF: "near 6 H F"
    using harmonic_between(1)[OF P R] by (simp add: H_def)
  have H: "0 < H" "min P R \<le> H" "H \<le> max P R"
    using harmonic_between(2,3)[OF P R] P R by (simp_all add: H_def)
  have e: "rho ^ 6 \<le> 1 + e" "1 - e \<le> 1 / rho ^ 6" "0 \<le> e" "e \<le> 1"
    using rho_pow_6 by (simp_all add: e_def)
  have err: "\<bar>F - H\<bar> \<le> H * e"
    using nF less_imp_le[OF H(1)] e(1,2) by (rule near_abs)
  have lo: "min P R * (1 - e) \<le> F"
  proof -
    have "min P R * (1 - e) \<le> H * (1 - e)"
      using H(2) e(4) by (intro mult_right_mono) simp_all
    also have "\<dots> \<le> F" using err by (simp add: algebra_simps abs_le_iff)
    finally show ?thesis .
  qed
  have hi: "F \<le> max P R * (1 + e)"
  proof -
    have "F \<le> H * (1 + e)" using err by (simp add: algebra_simps abs_le_iff)
    also have "\<dots> \<le> max P R * (1 + e)"
      using H(3) e(3) by (intro mult_right_mono) simp_all
    finally show ?thesis .
  qed
  have f: "f1_1 c = Fin F"
    using p0 r0 s0 ab0 by (simp add: f1_1_def Let_def p r a_def b_def s_def F_def)
  from f err lo hi show "\<exists>F. f1_1 c = Fin F
           \<and> \<bar>F - 2 * P * R / (P + R)\<bar> \<le> (2 * P * R / (P + R)) / 2 ^ 49
           \<and> min P R * (1 - 1 / 2 ^ 49) \<le> F \<and> F \<le> max P R * (1 + 1 / 2 ^ 49)"
    unfolding H_def e_def by (intro exI[of _ F]) simp
qed

theorem f1_harmonic_mean_witness:
  "0 < tp \<lparr>tp = 2, fp = 2, tn = 2, fn = 1\<rparr>
   \<and> (\<exists>F. f1_1 \<lparr>tp = 2, fp = 2, tn = 2, fn = 1\<rparr> = Fin F
          \<and> \<bar>F - 4 / 7\<bar> \<le> (4 / 7) / 2 ^ 49
          \<and> 1 / 2 * (1 - 1 / 2 ^ 49) \<le> F \<and> F \<le> 2 / 3 * (1 + 1 / 2 ^ 49))"
proof -
  let ?c = "\<lparr>tp = 2, fp = 2, tn = 2, fn = 1\<rparr>"
  have h: "0 < tp ?c" by simp
  have P: "(of_nat (tp ?c) / of_nat (tp ?c + fp ?c) :: rat) = 1 / 2"
    and R: "(of_nat (tp ?c) / of_nat (tp ?c + fn ?c) :: rat) = 2 / 3"
    by simp_all
  have H: "(2 * (1 / 2) * (2 / 3) / (1 / 2 + 2 / 3) :: rat) = 4 / 7"
    and m: "min (1 / 2 :: rat) (2 / 3) = 1 / 2" "max (1 / 2 :: rat) (2 / 3) = 2 / 3"
    by simp_all
  from f1_harmonic_mean[of ?c, THEN conjunct2, THEN conjunct2, rule_format, OF h]
  show ?thesis
    unfolding P R H m using h by blast
qed

text \<open>
  The cut follows the floats: \<open>0.4 - 0.1\<close> is \<open>0.30000000000000004\<close>, above the score
  \<open>0.3\<close>, while \<open>0.1 - 0.1\<close> is 0.
\<close>

lemma predFP_ties:
  "predFP (round64 (4 / 10)) [round64 (3 / 10)] = [0]"
  "predFP (round64 (1 / 10)) [0] = [1]"
  "predFP (5 / 8) [9 / 16] = [1]"
  by code_simp+

text \<open>
  C6 as stated fails for the threshold the cell is given: with the scores \<open>[0.5, 0.375]\<close>
  and the threshold \<open>0.5625\<close>, the mean of the other column, the first score is below the
  threshold and is classified 1.  The cell also changes the frame: it stores the vector as
  the column \<^verbatim>\<open>predFP\<close> and prints its sum.
\<close>

theorem predFP_counterexample:
  "predFP (9 / 16) [1 / 2, 3 / 8] = [1, 0] \<and> (1 / 2 :: rat) < 9 / 16
   \<and> predFP_cell (9 / 16) \<lparr>col_male = [1 / 2, 5 / 8], col_female = [1 / 2, 3 / 8], col_predFP = None\<rparr>
       = (\<lparr>col_male = [1 / 2, 5 / 8], col_female = [1 / 2, 3 / 8], col_predFP = Some [1, 0]\<rparr>, 1)"
  by code_simp

text \<open>
  C6, amended.  For every score vector and every threshold the cell stores, as the column
  \<^verbatim>\<open>predFP\<close> of the frame and leaving the other columns as they are, the vector of the
  length of the score vector whose entry \<open>i\<close> is 1 exactly when score \<open>i\<close> is at least the
  cut, a score equal to the cut included, and 0 exactly when the score is below it; the cut
  is the binary64 value of \<^verbatim>\<open>threshold - 0.1\<close>.  The number it prints is the number of
  scores at or above the cut.
\<close>

theorem predFP_pointwise:
  fixes threshold :: rat and Y_pp :: Y_pp_frame
  defines "cutoff \<equiv> round64 (threshold - round64 (1 / 10))"
  shows "\<exists>v. predFP_cell threshold Y_pp = (Y_pp\<lparr>col_predFP := Some v\<rparr>, sum_list v)
           \<and> v = predFP threshold (col_female Y_pp)
           \<and> length v = length (col_female Y_pp)
           \<and> (\<forall>i < length (col_female Y_pp).
                 (v ! i = 1 \<longleftrightarrow> cutoff \<le> col_female Y_pp ! i)
               \<and> (v ! i = 0 \<longleftrightarrow> col_female Y_pp ! i < cutoff))
           \<and> sum_list v = int (length (filter (\<lambda>s. cutoff \<le> s) (col_female Y_pp)))"
proof -
  define v where "v = predFP threshold (col_female Y_pp)"
  have cell: "predFP_cell threshold Y_pp = (Y_pp\<lparr>col_predFP := Some v\<rparr>, sum_list v)"
    by (simp add: predFP_cell_def Let_def v_def)
  have len: "length v = length (col_female Y_pp)"
    by (simp add: v_def predFP_def)
  have entry: "v ! i = (if cutoff \<le> col_female Y_pp ! i then 1 else 0)"
    if "i < length (col_female Y_pp)" for i
    using that by (simp add: v_def predFP_def cutoff_def)
  have sum: "sum_list (map (\<lambda>i. if cutoff \<le> i then 1 else 0) xs) = int (length (filter (\<lambda>s. cutoff \<le> s) xs))"
    for xs :: "rat list"
    by (induction xs) simp_all
  have total: "sum_list v = int (length (filter (\<lambda>s. cutoff \<le> s) (col_female Y_pp)))"
    using sum[of "col_female Y_pp"] by (simp add: v_def predFP_def cutoff_def)
  show ?thesis
  proof (intro exI[of _ v] conjI allI impI)
    show "predFP_cell threshold Y_pp = (Y_pp\<lparr>col_predFP := Some v\<rparr>, sum_list v)" by (rule cell)
    show "v = predFP threshold (col_female Y_pp)" by (rule v_def)
    show "length v = length (col_female Y_pp)" by (rule len)
    show "sum_list v = int (length (filter (\<lambda>s. cutoff \<le> s) (col_female Y_pp)))" by (rule total)
  next
    fix i assume "i < length (col_female Y_pp)"
    then show "v ! i = 1 \<longleftrightarrow> cutoff \<le> col_female Y_pp ! i"
      and "v ! i = 0 \<longleftrightarrow> col_female Y_pp ! i < cutoff"
      by (simp_all add: entry not_le)
  qed
qed

theorem predFP_pointwise_witness:
  "(0::nat) < length (col_female \<lparr>col_male = [1 / 2, 5 / 8], col_female = [1 / 2, 3 / 8], col_predFP = None\<rparr>)
   \<and> round64 (9 / 16 - round64 (1 / 10)) \<le> (1 / 2 :: rat)
   \<and> predFP (9 / 16) [1 / 2, 3 / 8] ! 0 = 1"
proof -
  let ?Y = "\<lparr>col_male = [1 / 2, 5 / 8], col_female = [1 / 2, 3 / 8], col_predFP = None\<rparr>"
  have cutoff: "round64 (9 / 16 - round64 (1 / 10)) \<le> (1 / 2 :: rat)"
    by code_simp
  from predFP_pointwise[of "9 / 16" ?Y] cutoff show ?thesis
    by auto
qed

section \<open>Facts about the ROC curve\<close>

lemma remdups_map_inj_on:
  "inj_on f (set xs) \<Longrightarrow> remdups (map f xs) = map f (remdups xs)"
proof (induction xs)
  case Nil
  then show ?case by simp
next
  case (Cons x xs)
  then have "inj_on f (set xs)" and mem: "f x \<in> f ` set xs \<longleftrightarrow> x \<in> set xs"
    by (auto simp: inj_on_def)
  with Cons.IH show ?case by simp
qed

lemma threshold_predictions_mono:
  assumes "strict_mono_on (set scores) f" and "t \<in> set scores"
  shows "threshold_predictions (f t) (map f scores) = threshold_predictions t scores"
  unfolding threshold_predictions_def map_map
  by (rule map_cong) (simp_all add: strict_mono_on_less_eq[OF assms(1) assms(2)])

lemma roc_point_mono:
  assumes "strict_mono_on (set scores) f" and "t \<in> set scores"
  shows "roc_point y (map f scores) (f t) = roc_point y scores t"
  by (simp add: roc_point_def threshold_predictions_mono[OF assms])

text \<open>
  The construction agrees with the scenarios the specification lists: perfect separation
  has area 1, scores that are all equal have area one half, and labels of a single class
  are a degenerate input.
\<close>

lemma roc_auc_scenarios:
  "roc_auc [1, 0, 1, 0] [9 / 10, 1 / 10, 8 / 10, 2 / 10] = Inr 1"
  "roc_auc [1, 0, 1, 0] [1 / 2, 1 / 2, 1 / 2, 1 / 2] = Inr (1 / 2)"
  "roc_auc [1, 1, 1, 1] [9 / 10, 1 / 10, 8 / 10, 2 / 10] = Inl DegenerateInputError"
  "roc_curve [1, 0, 1, 0] [9 / 10, 1 / 10, 8 / 10, 2 / 10]
     = Inr [(0, 0), (0, 1 / 2), (0, 1), (1 / 2, 1), (1, 1), (1, 1)]"
  by code_simp+

text \<open>
  C7.  A transform of the scores that is strictly increasing on the scores present leaves
  the ROC curve, and with it the area under the curve, unchanged.
\<close>

theorem auc_rank_invariant:
  assumes "strict_mono_on (set scores) f"
  shows "roc_curve y (map f scores) = roc_curve y scores
         \<and> roc_auc y (map f scores) = roc_auc y scores"
proof -
  have inj: "inj_on f (set scores)"
    using assms by (rule strict_mono_on_imp_inj_on)
  have "map (roc_point y (map f scores)) (remdups (map f scores))
        = map (\<lambda>t. roc_point y (map f scores) (f t)) (remdups scores)"
    by (simp add: remdups_map_inj_on[OF inj] o_def)
  also have "\<dots> = map (roc_point y scores) (remdups scores)"
    by (rule map_cong) (simp_all add: roc_point_mono[OF assms])
  finally have curve: "roc_curve y (map f scores) = roc_curve y scores"
    by (simp add: roc_curve_def)
  then have "roc_auc y (map f scores) = roc_auc y scores"
    by (simp add: roc_auc_def)
  with curve show ?thesis ..
qed

theorem auc_rank_invariant_witness:
  "strict_mono_on (set [9 / 10, 1 / 10, 8 / 10, 2 / 10]) (\<lambda>x::rat. 2 * x + 1)
   \<and> roc_auc [1, 0, 1, 0] (map (\<lambda>x. 2 * x + 1) [9 / 10, 1 / 10, 8 / 10, 2 / 10]) = Inr 1
   \<and> roc_auc [1, 0, 1, 0] [9 / 10, 1 / 10, 8 / 10, 2 / 10] = Inr 1"
proof -
  have h: "strict_mono_on (set [9 / 10, 1 / 10, 8 / 10, 2 / 10]) (\<lambda>x::rat. 2 * x + 1)"
    by (simp add: strict_mono_on_def)
  have v: "roc_auc [1, 0, 1, 0] [9 / 10, 1 / 10, 8 / 10, 2 / 10] = Inr 1"
    by code_simp
  from auc_rank_invariant[OF h, of "[1, 0, 1, 0]"] h v show ?thesis
    by simp
qed

section \<open>Relabelling, the false-positive rate and the baseline\<close>

text \<open>
  C8.  For two vectors of equal length, exchanging 0 and 1 throughout both exchanges \<open>tp\<close>
  with \<open>tn\<close> and \<open>fp\<close> with \<open>fn\<close> in the tally, and the accuracy is the same.  When the
  vectors are binary the accuracy is \<open>(tp + tn) / N\<close>, with \<open>N\<close> their length.
\<close>

theorem complement_transposes:
  assumes "length y = length predicted"
  shows "\<exists>c c'. confusion_tally y predicted = Inr c
           \<and> confusion_tally (complement y) (complement predicted) = Inr c'
           \<and> tp c' = tn c \<and> tn c' = tp c \<and> fp c' = fn c \<and> fn c' = fp c
           \<and> accuracy c' = accuracy c
           \<and> (binary y \<and> binary predicted \<longrightarrow>
                accuracy c = true_divide (float (tp c + tn c)) (float (length y)))"
proof -
  have c: "tally_cell (complement y) a (complement predicted) b = tally_cell y (1 - a) predicted (1 - b)"
    if "a = 0 \<or> a = 1" "b = 0 \<or> b = 1" for a b
    using complement_cell[OF assms that] .
  have total: "length (filter (\<lambda>(u, v). u = (1::int) \<and> v = (1::int)) (zip y predicted))
   + length (filter (\<lambda>(u, v). u = 0 \<and> v = 1) (zip y predicted))
   + length (filter (\<lambda>(u, v). u = 0 \<and> v = 0) (zip y predicted))
   + length (filter (\<lambda>(u, v). u = 1 \<and> v = 0) (zip y predicted)) = length y"
    if "binary y \<and> binary predicted"
  proof -
    have "\<forall>p \<in> set (zip y predicted). (fst p = 0 \<or> fst p = 1) \<and> (snd p = 0 \<or> snd p = 1)"
      using that by (auto simp: binary_def list_all_iff dest: set_zip_leftD set_zip_rightD)
    from four_way_partition[OF this] assms show ?thesis by simp
  qed
  show ?thesis
    using assms total
    by (simp add: confusion_tally_def c tally_cell_zip accuracy_def Let_def add.commute add.left_commute)
qed

theorem complement_transposes_witness:
  "length [1, 1, 0, 0, 1, 0 :: int] = length [1, 0, 0, 1, 1, 1 :: int]
   \<and> binary [1, 1, 0, 0, 1, 0] \<and> binary [1, 0, 0, 1, 1, 1]
   \<and> confusion_tally [1, 1, 0, 0, 1, 0] [1, 0, 0, 1, 1, 1] = Inr \<lparr>tp = 2, fp = 2, tn = 1, fn = 1\<rparr>
   \<and> confusion_tally (complement [1, 1, 0, 0, 1, 0]) (complement [1, 0, 0, 1, 1, 1])
       = Inr \<lparr>tp = 1, fp = 1, tn = 2, fn = 2\<rparr>
   \<and> accuracy \<lparr>tp = 1, fp = 1, tn = 2, fn = 2\<rparr> = accuracy \<lparr>tp = 2, fp = 2, tn = 1, fn = 1\<rparr>"
proof -
  have h: "length [1, 1, 0, 0, 1, 0 :: int] = length [1, 0, 0, 1, 1, 1 :: int]"
    by simp
  have b: "binary [1, 1, 0, 0, 1, 0] \<and> binary [1, 0, 0, 1, 1, 1]"
    by (simp add: binary_def)
  have v: "confusion_tally [1, 1, 0, 0, 1, 0] [1, 0, 0, 1, 1, 1] = Inr \<lparr>tp = 2, fp = 2, tn = 1, fn = 1\<rparr>"
    "confusion_tally (complement [1, 1, 0, 0, 1, 0]) (complement [1, 0, 0, 1, 1, 1])
       = Inr \<lparr>tp = 1, fp = 1, tn = 2, fn = 2\<rparr>"
    by (simp_all add: confusion_tally_def tally_cell_def np_and_def np_eq_def np_sum_def
        complement_def)
  from complement_transposes[OF h] v h b show ?thesis
    by auto
qed

text \<open>
  C9 as stated fails: with one false positive and two true negatives the false-positive
  rate is \<open>0.3333333333333333\<close> and one minus the specificity is
  \<open>0.33333333333333337\<close>.
\<close>

theorem fpr_counterexample:
  "false_positive_rate \<lparr>tp = 2, fp = 1, tn = 2, fn = 1\<rparr>
     = Fin (6004799503160661 / 18014398509481984)
   \<and> np_subtract (Fin 1) (specificity \<lparr>tp = 2, fp = 1, tn = 2, fn = 1\<rparr>)
     = Fin (3002399751580331 / 9007199254740992)
   \<and> false_positive_rate \<lparr>tp = 2, fp = 1, tn = 2, fn = 1\<rparr>
     \<noteq> np_subtract (Fin 1) (specificity \<lparr>tp = 2, fp = 1, tn = 2, fn = 1\<rparr>)"
  by code_simp

text \<open>
  C9, amended.  When \<open>tn + fp\<close> is positive the false-positive rate is a number within
  \<open>2^-51\<close> of the exact ratio \<open>fp / (tn + fp)\<close>, one minus the specificity is a number, and
  the two differ by at most \<open>2^-49\<close>.
\<close>

theorem fpr_is_one_minus_specificity:
  assumes "0 < tn c + fp c"
  shows "\<exists>x z. false_positive_rate c = Fin x
           \<and> np_subtract (Fin 1) (specificity c) = Fin z
           \<and> \<bar>x - of_nat (fp c) / of_nat (tn c + fp c)\<bar> \<le> 1 / 2 ^ 51
           \<and> \<bar>x - z\<bar> \<le> 1 / 2 ^ 49"
proof -
  define Q :: rat where "Q = of_nat (fp c) / of_nat (tn c + fp c)"
  define S :: rat where "S = of_nat (tn c) / of_nat (tn c + fp c)"
  define e :: rat where "e = 1 / 2 ^ 51"
  have nz: "tn c + fp c \<noteq> 0" using assms by simp
  have N: "0 < (of_nat (tn c + fp c) :: rat)" using assms by (simp del: of_nat_add)
  have Q: "0 \<le> Q" "Q \<le> 1" and S: "0 \<le> S" "S \<le> 1" and QS: "Q = 1 - S"
    using N by (simp_all add: Q_def S_def field_simps del: of_nat_add)
  have e: "rho ^ 3 \<le> 1 + e" "1 - e \<le> 1 / rho ^ 3" "0 \<le> e" "e \<le> 1"
    using rho_pow_3 by (simp_all add: e_def)
  from near_ratio[OF nz, of "fp c"] obtain x
    where x: "false_positive_rate c = Fin x" and nx: "near 3 Q x"
    by (auto simp: false_positive_rate_def Q_def)
  from near_ratio[OF nz, of "tn c"] obtain y
    where y: "specificity c = Fin y" and ny: "near 3 S y"
    by (auto simp: specificity_def S_def)
  define z where "z = round64 (1 - y)"
  have z: "np_subtract (Fin 1) (specificity c) = Fin z"
    by (simp add: y np_subtract_def z_def)
  have "\<bar>x - Q\<bar> \<le> Q * e"
    using nx Q(1) e(1,2) by (rule near_abs)
  also have "\<dots> \<le> 1 * e"
    using Q(2) e(3) by (rule mult_right_mono)
  finally have ex: "\<bar>x - Q\<bar> \<le> e" by simp
  have "\<bar>y - S\<bar> \<le> S * e"
    using ny S(1) e(1,2) by (rule near_abs)
  also have "\<dots> \<le> 1 * e"
    using S(2) e(3) by (rule mult_right_mono)
  finally have ey: "\<bar>y - S\<bar> \<le> e" by simp
  have "\<bar>1 - y\<bar> \<le> 2"
    using ey S e(4) by linarith
  then have "\<bar>1 - y\<bar> / 2 ^ 53 \<le> 2 / 2 ^ 53"
    by (rule divide_right_mono) simp
  moreover have "(2::rat) / 2 ^ 53 = e / 2"
    by (simp add: e_def)
  moreover have "\<bar>z - (1 - y)\<bar> \<le> \<bar>1 - y\<bar> / 2 ^ 53"
    unfolding z_def by (rule round64_error)
  ultimately have ez: "\<bar>z - (1 - y)\<bar> \<le> e / 2"
    by linarith
  have "\<bar>x - z\<bar> \<le> e + e + e / 2"
    using ex ey ez QS by linarith
  also have "\<dots> \<le> 1 / 2 ^ 49"
    by (simp add: e_def)
  finally have "\<bar>x - z\<bar> \<le> 1 / 2 ^ 49" .
  with x z ex show ?thesis
    unfolding Q_def e_def by blast
qed

theorem fpr_is_one_minus_specificity_witness:
  "0 < tn \<lparr>tp = 2, fp = 1, tn = 2, fn = 1\<rparr> + fp \<lparr>tp = 2, fp = 1, tn = 2, fn = 1\<rparr>
   \<and> (\<exists>x z. false_positive_rate \<lparr>tp = 2, fp = 1, tn = 2, fn = 1\<rparr> = Fin x
           \<and> np_subtract (Fin 1) (specificity \<lparr>tp = 2, fp = 1, tn = 2, fn = 1\<rparr>) = Fin z
           \<and> \<bar>x - 1 / 3\<bar> \<le> 1 / 2 ^ 51
           \<and> \<bar>x - z\<bar> \<le> 1 / 2 ^ 49)"
proof -
  have h: "0 < tn \<lparr>tp = 2, fp = 1, tn = 2, fn = 1\<rparr> + fp \<lparr>tp = 2, fp = 1, tn = 2, fn = 1\<rparr>"
    by simp
  from fpr_is_one_minus_specificity[OF h] h show ?thesis
    by simp
qed

text \<open>
  C10.  The notebook defines the baseline as the share of the majority class.  The cell
  computes one minus the mean of the labels, the share of the labels 0: for the labels
  \<open>[1, 1, 0]\<close> it gives \<open>0.33333333333333337\<close>, while always predicting the majority
  class 1 is right with the share \<open>0.6666666666666666\<close>.
\<close>

theorem baseline_counterexample:
  "baseline_acc [1, 1, 0] = Fin (3002399751580331 / 9007199254740992)
   \<and> majority_class_accuracy [1, 1, 0] = Fin (6004799503160661 / 9007199254740992)
   \<and> baseline_acc [1, 1, 0] \<noteq> majority_class_accuracy [1, 1, 0]"
  by code_simp

end
